theory Spec2Isabelle
  imports Complex_Main "HOL-Library.AList" "HOL-Library.Word"
begin

section \<open>Values, errors and dictionaries\<close>

text \<open>
  The bot (\<^verbatim>\<open>src/bot.py\<close>) handles the values that \<^verbatim>\<open>json.loads\<close> can return:
  \<^verbatim>\<open>None\<close>, booleans, integers, floats, strings, lists and dictionaries with string keys.
  A Python \<^verbatim>\<open>str\<close> is modelled as a \<open>string\<close> holding its UTF-8 encoding, so the
  emoji of the reply template are four \<open>char\<close>s each. A dictionary is an association
  list in insertion order: \<^verbatim>\<open>d.get(k)\<close> is \<open>map_of\<close>, \<^verbatim>\<open>d[k] = v\<close> is \<open>AList.update\<close>
  (the entry keeps its place when the key is there, and goes to the end when it is not).
\<close>

datatype pyfloat = Finite rat | PosInf | NegInf | NaN

datatype pyval =
    PNone
  | PBool bool
  | PInt int
  | PFloat pyfloat
  | PStr string
  | PList "pyval list"
  | PDict "(string \<times> pyval) list"

type_synonym pydict = "(string \<times> pyval) list"

datatype pyerr =
    KeyError string
  | AttributeError
  | IndexError
  | Raised string

text \<open>Python's truth value of an object, as \<^verbatim>\<open>if x\<close> and \<^verbatim>\<open>not x\<close> test it.\<close>

fun truthy :: "pyval \<Rightarrow> bool" where
  "truthy PNone = False"
| "truthy (PBool b) = b"
| "truthy (PInt i) = (i \<noteq> 0)"
| "truthy (PFloat f) = (f \<noteq> Finite 0)"
| "truthy (PStr s) = (s \<noteq> [])"
| "truthy (PList xs) = (xs \<noteq> [])"
| "truthy (PDict kvs) = (kvs \<noteq> [])"

definition dict_get :: "pydict \<Rightarrow> string \<Rightarrow> pyval \<Rightarrow> pyval" where
  "dict_get d k dflt = (case map_of d k of None \<Rightarrow> dflt | Some v \<Rightarrow> v)"

definition dict_set :: "pydict \<Rightarrow> string \<Rightarrow> pyval \<Rightarrow> pydict" where
  "dict_set d k v = AList.update k v d"

definition dict_item :: "pydict \<Rightarrow> string \<Rightarrow> pyerr + pyval" where
  "dict_item d k = (case map_of d k of None \<Rightarrow> Inl (KeyError k) | Some v \<Rightarrow> Inr v)"

section \<open>Text: whitespace and the two patterns\<close>

text \<open>
  \<^verbatim>\<open>str.strip()\<close> and the class \<^verbatim>\<open>\s\<close> use the same whitespace test. Its ASCII members
  are the code points 9 to 13, 28 to 31 and 32, and \<^verbatim>\<open>\d\<close> has the ASCII members
  \<^verbatim>\<open>0\<close> to \<^verbatim>\<open>9\<close>. Python also counts the whitespace and the decimal digits of the other
  Unicode blocks; they are left out here, so the model is Python's on every text that
  has none of them.
\<close>

definition is_space :: "char \<Rightarrow> bool" where
  "is_space c = (let n = (of_char c :: nat) in (9 \<le> n \<and> n \<le> 13) \<or> (28 \<le> n \<and> n \<le> 32))"

definition is_digit :: "char \<Rightarrow> bool" where
  "is_digit c = (let n = (of_char c :: nat) in 48 \<le> n \<and> n \<le> 57)"

definition is_alpha :: "char \<Rightarrow> bool" where
  "is_alpha c = (let n = (of_char c :: nat) in (65 \<le> n \<and> n \<le> 90) \<or> (97 \<le> n \<and> n \<le> 122))"

definition strip :: "string \<Rightarrow> string" where
  "strip s = rev (dropWhile is_space (rev (dropWhile is_space s)))"

text \<open>
  Both patterns are a sequence of character classes, each with a greedy repetition
  \<^verbatim>\<open>{lo,hi}\<close> (\<^verbatim>\<open>+\<close> is \<^verbatim>\<open>{1,}\<close>, \<^verbatim>\<open>?\<close> is \<^verbatim>\<open>{0,1}\<close>, a single class is \<^verbatim>\<open>{1,1}\<close>).
  The group of \<^verbatim>\<open>PHONE_RE\<close> spans the whole pattern and the code reads \<^verbatim>\<open>group(0)\<close> only.
\<close>

record item =
  cls :: "char \<Rightarrow> bool"
  lo :: nat
  hi :: "nat option"

definition rep :: "(char \<Rightarrow> bool) \<Rightarrow> nat \<Rightarrow> nat option \<Rightarrow> item" where
  "rep c l h = \<lparr>cls = c, lo = l, hi = h\<rparr>"

definition one :: "(char \<Rightarrow> bool) \<Rightarrow> item" where
  "one c = rep c 1 (Some 1)"

text \<open>\<^verbatim>\<open>EMAIL_RE = [A-Za-z0-9._%+-]+@[A-Za-z0-9.-]+\.[A-Za-z]{2,}\<close>\<close>

definition email_local :: "char \<Rightarrow> bool" where
  "email_local c = (is_alpha c \<or> is_digit c \<or> c \<in> set ''._%+-'')"

definition email_domain :: "char \<Rightarrow> bool" where
  "email_domain c = (is_alpha c \<or> is_digit c \<or> c \<in> set ''.-'')"

definition EMAIL_RE :: "item list" where
  "EMAIL_RE =
     [rep email_local 1 None, one (\<lambda>c. c = CHR ''@''), rep email_domain 1 None,
      one (\<lambda>c. c = CHR ''.''), rep is_alpha 2 None]"

text \<open>\<^verbatim>\<open>PHONE_RE = (\+?\d[\d\s\-().]{7,}\d)\<close>\<close>

definition phone_body :: "char \<Rightarrow> bool" where
  "phone_body c = (is_digit c \<or> is_space c \<or> c \<in> set ''-().'')"

definition PHONE_RE :: "item list" where
  "PHONE_RE =
     [rep (\<lambda>c. c = CHR ''+'') 0 (Some 1), one is_digit, rep phone_body 7 None, one is_digit]"

text \<open>
  The matcher of \<^verbatim>\<open>re\<close>: a greedy item first takes as many characters as it can
  (\<open>greedy_count\<close>), then gives them back one at a time until the rest of the pattern
  matches (\<open>first_down\<close>). \<open>match_here\<close> is the length of the match at the start of
  the text, \<open>re_search\<close> tries the start positions from the left and returns the
  first match with its position.
\<close>

definition greedy_count :: "item \<Rightarrow> string \<Rightarrow> nat" where
  "greedy_count it s =
     (let r = length (takeWhile (cls it) s)
      in case hi it of None \<Rightarrow> r | Some h \<Rightarrow> min h r)"

fun first_down :: "(nat \<Rightarrow> 'a option) \<Rightarrow> nat \<Rightarrow> nat \<Rightarrow> 'a option" where
  "first_down f l 0 = (if l = 0 then f 0 else None)"
| "first_down f l (Suc k) =
     (if Suc k < l then None
      else case f (Suc k) of Some r \<Rightarrow> Some r | None \<Rightarrow> first_down f l k)"

primrec match_here :: "item list \<Rightarrow> string \<Rightarrow> nat option" where
  "match_here [] s = Some 0"
| "match_here (it # its) s =
     first_down (\<lambda>k. map_option (\<lambda>n. k + n) (match_here its (drop k s)))
       (lo it) (greedy_count it s)"

fun re_search_at :: "item list \<Rightarrow> nat \<Rightarrow> string \<Rightarrow> (nat \<times> string) option" where
  "re_search_at p i [] =
     (case match_here p [] of Some n \<Rightarrow> Some (i, []) | None \<Rightarrow> None)"
| "re_search_at p i (c # cs) =
     (case match_here p (c # cs) of
        Some n \<Rightarrow> Some (i, take n (c # cs))
      | None \<Rightarrow> re_search_at p (Suc i) cs)"

definition re_search :: "item list \<Rightarrow> string \<Rightarrow> (nat \<times> string) option" where
  "re_search p s = re_search_at p 0 s"

text \<open>
  The strings a pattern denotes, stated without the matcher: the text splits into one
  block per item, each block within the item's bounds and inside its class.
\<close>

primrec matches :: "item list \<Rightarrow> string \<Rightarrow> bool" where
  "matches [] s = (s = [])"
| "matches (it # its) s =
     (\<exists>k \<in> {0..length s}. lo it \<le> k \<and> (case hi it of None \<Rightarrow> True | Some h \<Rightarrow> k \<le> h)
        \<and> (\<forall>c \<in> set (take k s). cls it c) \<and> matches its (drop k s))"

section \<open>The field rescuer\<close>

definition FIELDS :: "string list" where
  "FIELDS = [''name'', ''profession'', ''current_company'', ''current_location'',
             ''email'', ''phone'']"

definition sentinel :: pyval where
  "sentinel = PStr ''N/A''"

text \<open>
  \<open>regex_rescue\<close> mutates the dictionary it is given and returns it; the model returns
  the new dictionary. Its two scans have the same shape, \<open>rescue_field\<close>, for the pattern
  and key of each; its loop over the six field names is the fold of \<open>normalize_field\<close>.
\<close>

definition rescue_field :: "item list \<Rightarrow> string \<Rightarrow> string \<Rightarrow> pydict \<Rightarrow> pydict" where
  "rescue_field p k text d =
     (if dict_get d k sentinel = sentinel
      then (case re_search p text of
              Some (i, m) \<Rightarrow> dict_set d k (PStr m)
            | None \<Rightarrow> d)
      else d)"

definition normalize_field :: "string \<Rightarrow> pydict \<Rightarrow> pydict" where
  "normalize_field k d = (if \<not> truthy (dict_get d k PNone) then dict_set d k sentinel else d)"

definition regex_rescue :: "pydict \<Rightarrow> string \<Rightarrow> pydict" where
  "regex_rescue d text =
     fold normalize_field FIELDS
       (rescue_field PHONE_RE ''phone'' text (rescue_field EMAIL_RE ''email'' text d))"

section \<open>The collaborators\<close>

text \<open>
  The libraries and services the bot calls are parameters of the model; each either
  returns or raises:
  \<^item> \<open>image_open\<close> is \<^verbatim>\<open>Image.open(BytesIO(image_bytes)).convert("RGB")\<close>;
  \<^item> \<open>ocr_model_run\<close> is \<^verbatim>\<open>ocr_model.run(img)\<close>, returning the pair \<^verbatim>\<open>(output, error)\<close>;
  \<^item> \<open>groq_create\<close> is the chat completion for a prompt, up to
    \<^verbatim>\<open>res.choices[0].message.content\<close>;
  \<^item> \<open>json_loads\<close> is \<^verbatim>\<open>json.loads\<close>;
  \<^item> \<open>py_str\<close> is the text an f-string puts for a value that is not a \<^verbatim>\<open>str\<close>.
\<close>

type_synonym bytes = "8 word list"

record 'img collaborators =
  image_open :: "bytes \<Rightarrow> pyerr + 'img"
  ocr_model_run :: "'img \<Rightarrow> pyerr + pyval \<times> pyval"
  groq_create :: "string \<Rightarrow> pyerr + string"
  json_loads :: "string \<Rightarrow> pyerr + pyval"
  py_str :: "pyval \<Rightarrow> string"

section \<open>The OCR adapter\<close>

definition run_ocr :: "'img collaborators \<Rightarrow> bytes \<Rightarrow> pyerr + string" where
  "run_ocr c image_bytes =
     (case image_open c image_bytes of
        Inl e \<Rightarrow> Inl e
      | Inr img \<Rightarrow>
          (case ocr_model_run c img of
             Inl e \<Rightarrow> Inl e
           | Inr (output, error) \<Rightarrow>
               if truthy error then Inr []
               else (case output of PStr s \<Rightarrow> Inr (strip s) | _ \<Rightarrow> Inl AttributeError)))"

section \<open>The profile extractor\<close>

definition prompt :: "string \<Rightarrow> string" where
  "prompt text =
     ''\<newline>Extract LinkedIn profile details.\<newline>\<newline>Rules:\<newline>''
     @ ''- Use ONLY provided text\<newline>''
     @ ''- If missing, write '' @ [CHR 0x22] @ ''N/A'' @ [CHR 0x22] @ ''\<newline>''
     @ ''- Do NOT guess\<newline>''
     @ ''- Output valid JSON only\<newline>\<newline>''
     @ ''Fields:\<newline>name\<newline>profession\<newline>current_company\<newline>''
     @ ''current_location\<newline>email\<newline>phone\<newline>\<newline>''
     @ ''TEXT:\<newline>'' @ text @ ''\<newline>''"

text \<open>
  The bare \<^verbatim>\<open>except:\<close> turns every exception of \<^verbatim>\<open>json.loads\<close> into the empty
  dictionary. A text that \<^verbatim>\<open>json.loads\<close> accepts is returned as decoded, whatever
  its type.
\<close>

definition structure_text :: "'img collaborators \<Rightarrow> string \<Rightarrow> pyerr + pyval" where
  "structure_text c text =
     (case groq_create c (prompt text) of
        Inl e \<Rightarrow> Inl e
      | Inr content \<Rightarrow>
          (case json_loads c (strip content) of
             Inl e \<Rightarrow> Inr (PDict [])
           | Inr data \<Rightarrow> Inr data))"

text \<open>
  The call \<^verbatim>\<open>regex_rescue(structured, merged_text)\<close> as Python runs it on whatever
  \<open>structure_text\<close> returned: only a dictionary has the method \<^verbatim>\<open>get\<close>.
\<close>

definition regex_rescue_call :: "pyval \<Rightarrow> string \<Rightarrow> pyerr + pydict" where
  "regex_rescue_call data text =
     (case data of PDict d \<Rightarrow> Inr (regex_rescue d text) | _ \<Rightarrow> Inl AttributeError)"

section \<open>The reply formatter\<close>

definition pushpin :: string where
  "pushpin = [CHR 0xF0, CHR 0x9F, CHR 0x93, CHR 0x8C]"

definition bust :: string where
  "bust = [CHR 0xF0, CHR 0x9F, CHR 0x91, CHR 0xA4]"

definition briefcase :: string where
  "briefcase = [CHR 0xF0, CHR 0x9F, CHR 0x92, CHR 0xBC]"

definition office :: string where
  "office = [CHR 0xF0, CHR 0x9F, CHR 0x8F, CHR 0xA2]"

definition round_pin :: string where
  "round_pin = [CHR 0xF0, CHR 0x9F, CHR 0x93, CHR 0x8D]"

definition e_mail :: string where
  "e_mail = [CHR 0xF0, CHR 0x9F, CHR 0x93, CHR 0xA7]"

definition receiver :: string where
  "receiver = [CHR 0xF0, CHR 0x9F, CHR 0x93, CHR 0x9E]"

definition fstr :: "'img collaborators \<Rightarrow> pyval \<Rightarrow> string" where
  "fstr c v = (case v of PStr s \<Rightarrow> s | _ \<Rightarrow> py_str c v)"

definition and_then :: "'e + 'a \<Rightarrow> ('a \<Rightarrow> 'e + 'b) \<Rightarrow> 'e + 'b" where
  "and_then r f = (case r of Inl e \<Rightarrow> Inl e | Inr x \<Rightarrow> f x)"

definition format_reply :: "'img collaborators \<Rightarrow> pydict \<Rightarrow> pyerr + string" where
  "format_reply c d =
     and_then (dict_item d ''name'') (\<lambda>n.
     and_then (dict_item d ''profession'') (\<lambda>p.
     and_then (dict_item d ''current_company'') (\<lambda>co.
     and_then (dict_item d ''current_location'') (\<lambda>l.
     and_then (dict_item d ''email'') (\<lambda>e.
     and_then (dict_item d ''phone'') (\<lambda>ph.
       Inr (pushpin @ '' **Extracted Profile**\<newline>\<newline>''
            @ bust @ '' Name: '' @ fstr c n @ ''\<newline>''
            @ briefcase @ '' Profession: '' @ fstr c p @ ''\<newline>''
            @ office @ '' Company: '' @ fstr c co @ ''\<newline>''
            @ round_pin @ '' Location: '' @ fstr c l @ ''\<newline>''
            @ e_mail @ '' Email: '' @ fstr c e @ ''\<newline>''
            @ receiver @ '' Phone: '' @ fstr c ph)))))))"

text \<open>
  The template of the specification (section 6, output text format), for comparison
  with \<open>format_reply\<close>: its header line is the pushpin, a space and
  \<^verbatim>\<open>Extracted Profile\<close>.
\<close>

definition spec_template ::
  "string \<Rightarrow> string \<Rightarrow> string \<Rightarrow> string \<Rightarrow> string \<Rightarrow> string \<Rightarrow> string" where
  "spec_template n p co l e ph =
     pushpin @ '' Extracted Profile\<newline>\<newline>''
     @ bust @ '' Name: '' @ n @ ''\<newline>''
     @ briefcase @ '' Profession: '' @ p @ ''\<newline>''
     @ office @ '' Company: '' @ co @ ''\<newline>''
     @ round_pin @ '' Location: '' @ l @ ''\<newline>''
     @ e_mail @ '' Email: '' @ e @ ''\<newline>''
     @ receiver @ '' Phone: '' @ ph"

section \<open>The submission collator\<close>

text \<open>
  \<open>handle_photo\<close> is a coroutine on asyncio's single thread. Between two \<^verbatim>\<open>await\<close>s
  it runs alone, so it is modelled by its two segments around \<^verbatim>\<open>asyncio.sleep(1.5)\<close>:
  \<open>handle_photo_arrive\<close> (lines 119 to 127, the append to the buffer once the image
  is downloaded) and \<open>handle_photo_wake\<close> (lines 131 to 148, the check, the pop and the
  pipeline up to the reply). \<^verbatim>\<open>album_buffer\<close> is a \<^verbatim>\<open>defaultdict(list)\<close>: reading
  \<^verbatim>\<open>album_buffer[g]\<close> for a missing key stores the empty list under it
  (\<open>dd_getitem\<close>).
\<close>

record message =
  message_id :: int
  media_group_id :: "string option"

record update =
  msg :: message
  photo_bytes :: bytes

datatype gkey = MediaGroup string | MessageId int

text \<open>\<^verbatim>\<open>msg.media_group_id or msg.message_id\<close>\<close>

definition group_id :: "update \<Rightarrow> gkey" where
  "group_id u =
     (case media_group_id (msg u) of
        None \<Rightarrow> MessageId (message_id (msg u))
      | Some g \<Rightarrow> if g = [] then MessageId (message_id (msg u)) else MediaGroup g)"

type_synonym entry = "message \<times> bytes"

type_synonym buffer = "gkey \<rightharpoonup> entry list"

definition dd_getitem :: "buffer \<Rightarrow> gkey \<Rightarrow> buffer \<times> entry list" where
  "dd_getitem b g = (case b g of None \<Rightarrow> (b(g \<mapsto> []), []) | Some es \<Rightarrow> (b, es))"

definition handle_photo_arrive :: "update \<Rightarrow> buffer \<Rightarrow> buffer" where
  "handle_photo_arrive u b =
     (let (b', es) = dd_getitem b (group_id u)
      in b'(group_id u \<mapsto> es @ [(msg u, photo_bytes u)]))"

fun merge_ocr :: "'img collaborators \<Rightarrow> string \<Rightarrow> entry list \<Rightarrow> pyerr + string" where
  "merge_ocr c merged_text [] = Inr merged_text"
| "merge_ocr c merged_text ((m, img_bytes) # entries) =
     (case run_ocr c img_bytes of
        Inl e \<Rightarrow> Inl e
      | Inr t \<Rightarrow> merge_ocr c (merged_text @ ''\<newline>'' @ t) entries)"

datatype outcome = Skipped | Replied message string | Failed pyerr

definition finalize :: "'img collaborators \<Rightarrow> entry list \<Rightarrow> outcome" where
  "finalize c entries =
     (case merge_ocr c [] entries of
        Inl e \<Rightarrow> Failed e
      | Inr merged_text \<Rightarrow>
     (case structure_text c merged_text of
        Inl e \<Rightarrow> Failed e
      | Inr structured \<Rightarrow>
     (case regex_rescue_call structured merged_text of
        Inl e \<Rightarrow> Failed e
      | Inr final \<Rightarrow>
     (case entries of
        [] \<Rightarrow> Failed IndexError
      | (reply_to, _) # _ \<Rightarrow>
     (case format_reply c final of
        Inl e \<Rightarrow> Failed e
      | Inr text \<Rightarrow> Replied reply_to text)))))"

definition handle_photo_wake :: "'img collaborators \<Rightarrow> update \<Rightarrow> buffer \<Rightarrow> buffer \<times> outcome" where
  "handle_photo_wake c u b =
     (let (b', es) = dd_getitem b (group_id u)
      in if length es = 0 then (b', Skipped)
         else (b'(group_id u := None), finalize c es))"

text \<open>
  A run of the event loop is the list of the segments it ran, in order. The state is
  the buffer and the log of what each wake-up did.
\<close>

datatype event = Arrive update | Wake update

type_synonym state = "buffer \<times> (update \<times> outcome) list"

fun exec :: "'img collaborators \<Rightarrow> event \<Rightarrow> state \<Rightarrow> state" where
  "exec c (Arrive u) (b, outs) = (handle_photo_arrive u b, outs)"
| "exec c (Wake u) (b, outs) =
     (let (b', out) = handle_photo_wake c u b in (b', outs @ [(u, out)]))"

definition run :: "'img collaborators \<Rightarrow> event list \<Rightarrow> state \<Rightarrow> state" where
  "run c evs st = fold (exec c) evs st"

definition pending :: "buffer \<Rightarrow> gkey \<Rightarrow> entry list" where
  "pending b g = (case b g of None \<Rightarrow> [] | Some es \<Rightarrow> es)"

definition arrivals_of :: "gkey \<Rightarrow> event list \<Rightarrow> entry list" where
  "arrivals_of g evs =
     concat (map (\<lambda>ev. case ev of
                     Arrive u \<Rightarrow> if group_id u = g then [(msg u, photo_bytes u)] else []
                   | Wake u \<Rightarrow> []) evs)"

definition wakes_of :: "gkey \<Rightarrow> event list \<Rightarrow> update list" where
  "wakes_of g evs =
     concat (map (\<lambda>ev. case ev of
                     Arrive u \<Rightarrow> []
                   | Wake u \<Rightarrow> if group_id u = g then [u] else []) evs)"

definition log_of :: "gkey \<Rightarrow> (update \<times> outcome) list \<Rightarrow> (update \<times> outcome) list" where
  "log_of g outs = filter (\<lambda>(u, out). group_id u = g) outs"

section \<open>Stand-ins for the collaborators\<close>

text \<open>
  The concrete examples below need collaborators that compute. \<open>demo response\<close> is a
  collaborator set for them: an image is its own bytes and the empty input does not
  decode; the recognised text is the bytes read as characters, and the single byte 0 is
  an image the OCR service reports an error for; the language model answers
  \<open>response\<close> to every prompt; \<open>demo_loads\<close> decodes the two texts \<^verbatim>\<open>[]\<close> and
  \<^verbatim>\<open>{}\<close> as \<^verbatim>\<open>json.loads\<close> does and raises on every other text (the examples use it
  on these two texts and on text that is not JSON).
\<close>

definition demo_loads :: "string \<Rightarrow> pyerr + pyval" where
  "demo_loads s =
     (if s = ''[]'' then Inr (PList [])
      else if s = ''{}'' then Inr (PDict [])
      else Inl (Raised ''JSONDecodeError''))"

definition as_text :: "bytes \<Rightarrow> string" where
  "as_text bs = map (\<lambda>w. char_of (unat w)) bs"

definition as_bytes :: "string \<Rightarrow> bytes" where
  "as_bytes s = map (\<lambda>ch. of_nat (of_char ch)) s"

definition demo :: "string \<Rightarrow> bytes collaborators" where
  "demo response =
     \<lparr> image_open = (\<lambda>bs. if bs = [] then Inl (Raised ''UnidentifiedImageError'') else Inr bs),
       ocr_model_run = (\<lambda>img. if img = [0] then Inr (PNone, PStr ''unreadable'')
                               else Inr (PStr (as_text img), PNone)),
       groq_create = (\<lambda>p. Inr response),
       json_loads = demo_loads,
       py_str = (\<lambda>v. ''?'') \<rparr>"

definition photo :: "int \<Rightarrow> string \<Rightarrow> string \<Rightarrow> update" where
  "photo i g printed =
     \<lparr> msg = \<lparr> message_id = i, media_group_id = Some g \<rparr>, photo_bytes = as_bytes printed \<rparr>"

text \<open>
  The record of the specification's first scenario (section 8): the extractor found the
  first four fields and left \<^verbatim>\<open>N/A\<close> for e-mail and phone.
\<close>

definition jane :: pydict where
  "jane = [(''name'', PStr ''Jane Doe''), (''profession'', PStr ''Software Engineer''),
           (''current_company'', PStr ''Acme''), (''current_location'', PStr ''San Francisco, CA''),
           (''email'', PStr ''N/A''), (''phone'', PStr ''N/A'')]"

section \<open>Properties of the field rescuer\<close>

lemma map_of_dict_set: "map_of (dict_set d k v) k' = (if k' = k then Some v else map_of d k')"
  by (simp add: dict_set_def update_conv)

lemma dict_get_dict_set:
  "dict_get (dict_set d k v) k' dflt = (if k' = k then v else dict_get d k' dflt)"
  by (simp add: dict_get_def map_of_dict_set)

lemma dict_get_normalize_field:
  "dict_get (normalize_field k d) k' dflt =
     (if k' = k \<and> \<not> truthy (dict_get d k PNone) then sentinel else dict_get d k' dflt)"
  by (simp add: normalize_field_def dict_get_dict_set)

lemma map_of_normalize_field:
  "map_of (normalize_field k d) k' =
     (if k' = k \<and> \<not> truthy (dict_get d k PNone) then Some sentinel else map_of d k')"
  by (simp add: normalize_field_def map_of_dict_set)

lemma truthy_sentinel: "truthy sentinel"
  by (simp add: sentinel_def)

lemma map_of_fold_normalize:
  "map_of (fold normalize_field ks d) k =
     (if k \<in> set ks \<and> \<not> truthy (dict_get d k PNone) then Some sentinel else map_of d k)"
proof (induction ks arbitrary: d)
  case Nil
  show ?case by simp
next
  case (Cons x xs)
  show ?case
    by (auto simp: Cons.IH map_of_normalize_field dict_get_normalize_field truthy_sentinel)
qed

lemma map_of_rescue_field:
  "map_of (rescue_field p k text d) k' =
     (if k' = k \<and> dict_get d k sentinel = sentinel
      then (case re_search p text of Some (i, m) \<Rightarrow> Some (PStr m) | None \<Rightarrow> map_of d k')
      else map_of d k')"
  by (simp add: rescue_field_def map_of_dict_set split: option.splits)

lemma map_of_regex_rescue:
  "map_of (regex_rescue d text) k =
     (let d' = rescue_field PHONE_RE ''phone'' text (rescue_field EMAIL_RE ''email'' text d)
      in if k \<in> set FIELDS \<and> \<not> truthy (dict_get d' k PNone) then Some sentinel
         else map_of d' k)"
  by (simp add: regex_rescue_def map_of_fold_normalize Let_def)

text \<open>
  C2 (completeness). For every candidate dictionary and every raw text, each of the six
  fields of the record returned by \<open>regex_rescue\<close> is present and its value is true in
  Python's sense (so neither absent, nor \<^verbatim>\<open>None\<close>, nor empty). The value is the
  sentinel, or the candidate's own value, or the match of the e-mail or phone pattern.
\<close>

theorem regex_rescue_complete:
  "\<forall>k \<in> set FIELDS. \<exists>v.
     dict_item (regex_rescue d text) k = Inr v \<and> truthy v \<and>
     (v = sentinel \<or> map_of d k = Some v
      \<or> (k = ''email'' \<and> (\<exists>i m. re_search EMAIL_RE text = Some (i, m) \<and> v = PStr m))
      \<or> (k = ''phone'' \<and> (\<exists>i m. re_search PHONE_RE text = Some (i, m) \<and> v = PStr m)))"
proof
  fix k assume k: "k \<in> set FIELDS"
  let ?d = "rescue_field PHONE_RE ''phone'' text (rescue_field EMAIL_RE ''email'' text d)"
  have src: "map_of ?d k = None \<or> map_of ?d k = map_of d k
      \<or> (k = ''email'' \<and> (\<exists>i m. re_search EMAIL_RE text = Some (i, m) \<and> map_of ?d k = Some (PStr m)))
      \<or> (k = ''phone'' \<and> (\<exists>i m. re_search PHONE_RE text = Some (i, m) \<and> map_of ?d k = Some (PStr m)))"
    by (auto simp: map_of_rescue_field split: option.splits)
  show "\<exists>v. dict_item (regex_rescue d text) k = Inr v \<and> truthy v \<and>
     (v = sentinel \<or> map_of d k = Some v
      \<or> (k = ''email'' \<and> (\<exists>i m. re_search EMAIL_RE text = Some (i, m) \<and> v = PStr m))
      \<or> (k = ''phone'' \<and> (\<exists>i m. re_search PHONE_RE text = Some (i, m) \<and> v = PStr m)))"
  proof (cases "truthy (dict_get ?d k PNone)")
    case False
    with k have "dict_item (regex_rescue d text) k = Inr sentinel"
      by (simp add: dict_item_def map_of_regex_rescue Let_def)
    then show ?thesis by (simp add: truthy_sentinel)
  next
    case True
    then obtain v where v: "map_of ?d k = Some v" "truthy v"
      by (auto simp: dict_get_def split: option.splits)
    with True have "dict_item (regex_rescue d text) k = Inr v"
      by (simp add: dict_item_def map_of_regex_rescue Let_def)
    with v src show ?thesis by auto
  qed
qed

theorem regex_rescue_complete_witness:
  "''email'' \<in> set FIELDS
   \<and> dict_item (regex_rescue [] ''write to jane@x.com'') ''email'' = Inr (PStr ''jane@x.com'')
   \<and> (\<exists>v. dict_item (regex_rescue [] ''write to jane@x.com'') ''name'' = Inr v \<and> truthy v)"
proof -
  have f: "''email'' \<in> set FIELDS" "''name'' \<in> set FIELDS" by (simp_all add: FIELDS_def)
  have e: "dict_item (regex_rescue [] ''write to jane@x.com'') ''email'' = Inr (PStr ''jane@x.com'')"
    by code_simp
  from regex_rescue_complete [of "[]" "''write to jane@x.com''"] f(2)
  have "\<exists>v. dict_item (regex_rescue [] ''write to jane@x.com'') ''name'' = Inr v \<and> truthy v"
    by blast
  with f e show ?thesis by simp
qed

section \<open>Properties of the matcher\<close>
















lemma no_empty_email: "\<not> matches EMAIL_RE []"
  by (simp add: EMAIL_RE_def rep_def one_def)





text \<open>
  C10 (empty, not sentinel). When the candidate's email (or phone) is present and is the
  empty string, the scan of that field is skipped (\<open>rescue_field\<close> returns the record as
  it is, for every text), and the normalisation turns the field into the sentinel: the
  final value is \<^verbatim>\<open>N/A\<close> also when the text holds a match of the pattern.
\<close>

theorem empty_field_not_rescued:
  assumes "k = ''email'' \<or> k = ''phone''" and "map_of d k = Some (PStr [])"
  shows "rescue_field p k text d = d \<and> dict_item (regex_rescue d text) k = Inr sentinel"
proof -
  have ns: "PStr [] \<noteq> sentinel" by (simp add: sentinel_def)
  have a: "rescue_field p k text d = d"
    using assms(2) ns by (simp add: rescue_field_def dict_get_def)
  let ?d = "rescue_field PHONE_RE ''phone'' text (rescue_field EMAIL_RE ''email'' text d)"
  have "map_of ?d k = Some (PStr [])"
    using assms ns by (auto simp: map_of_rescue_field dict_get_def)
  then have "dict_item (regex_rescue d text) k = Inr sentinel"
    using assms(1) by (auto simp: dict_item_def map_of_regex_rescue Let_def dict_get_def FIELDS_def)
  with a show ?thesis by simp
qed

theorem empty_field_not_rescued_witness:
  "re_search EMAIL_RE ''mail jane@x.com or call 555 123 4567'' = Some (5, ''jane@x.com'')
   \<and> re_search PHONE_RE ''mail jane@x.com or call 555 123 4567'' = Some (24, ''555 123 4567'')
   \<and> dict_item (regex_rescue [(''email'', PStr []), (''phone'', PStr [])]
                  ''mail jane@x.com or call 555 123 4567'') ''email'' = Inr (PStr ''N/A'')
   \<and> dict_item (regex_rescue [(''email'', PStr []), (''phone'', PStr [])]
                  ''mail jane@x.com or call 555 123 4567'') ''phone'' = Inr (PStr ''N/A'')"
proof -
  let ?d = "[(''email'', PStr []), (''phone'', PStr [])]"
  have e: "map_of ?d ''email'' = Some (PStr [])" and p: "map_of ?d ''phone'' = Some (PStr [])"
    by simp_all
  have s1: "re_search EMAIL_RE ''mail jane@x.com or call 555 123 4567'' = Some (5, ''jane@x.com'')"
    by code_simp
  have s2: "re_search PHONE_RE ''mail jane@x.com or call 555 123 4567'' = Some (24, ''555 123 4567'')"
    by code_simp
  from empty_field_not_rescued [OF _ e] empty_field_not_rescued [OF _ p] s1 s2
  show ?thesis by (simp add: sentinel_def)
qed

text \<open>
  C5 (rescue non-override), as amended. When the candidate's email (respectively phone)
  is present, is not the sentinel and is true in Python's sense, \<open>regex_rescue\<close> leaves
  it as it is, whatever the text holds.
\<close>

theorem regex_rescue_keeps_populated:
  assumes "k = ''email'' \<or> k = ''phone''" and "map_of d k = Some v"
    and "v \<noteq> sentinel" and "truthy v"
  shows "dict_item (regex_rescue d text) k = Inr v"
proof -
  let ?d = "rescue_field PHONE_RE ''phone'' text (rescue_field EMAIL_RE ''email'' text d)"
  have "map_of ?d k = Some v"
    using assms by (auto simp: map_of_rescue_field dict_get_def)
  then show ?thesis
    using assms(4) by (simp add: dict_item_def map_of_regex_rescue Let_def dict_get_def)
qed

theorem regex_rescue_keeps_populated_witness:
  "re_search EMAIL_RE ''contact: j.doe@acme.org'' = Some (9, ''j.doe@acme.org'')
   \<and> dict_item (regex_rescue [(''email'', PStr ''jane@x.com'')] ''contact: j.doe@acme.org'') ''email''
       = Inr (PStr ''jane@x.com'')"
proof -
  have s: "re_search EMAIL_RE ''contact: j.doe@acme.org'' = Some (9, ''j.doe@acme.org'')"
    by code_simp
  have "dict_item (regex_rescue [(''email'', PStr ''jane@x.com'')] ''contact: j.doe@acme.org'') ''email''
       = Inr (PStr ''jane@x.com'')"
    by (rule regex_rescue_keeps_populated) (simp_all add: sentinel_def)
  with s show ?thesis by simp
qed

text \<open>
  C5 as stated fails for a value that is neither the sentinel nor true: the empty string
  is replaced by \<^verbatim>\<open>N/A\<close>.
\<close>

theorem rescue_overwrites_empty_counterexample:
  "map_of [(''email'', PStr [])] ''email'' = Some (PStr [])
   \<and> PStr [] \<noteq> sentinel
   \<and> dict_item (regex_rescue [(''email'', PStr [])] ''contact: j.doe@acme.org'') ''email''
       = Inr (PStr ''N/A'')
   \<and> PStr ''N/A'' \<noteq> PStr []"
  by (simp add: sentinel_def) code_simp

section \<open>Properties of the OCR adapter, the extractor and the merge\<close>

lemma run_ocr_error_flag:
  "image_open c bs = Inr img \<Longrightarrow> ocr_model_run c img = Inr (out, err) \<Longrightarrow> truthy err
     \<Longrightarrow> run_ocr c bs = Inr []"
  by (simp add: run_ocr_def)

text \<open>
  C3 (the OCR adapter fails closed). The code does not: \<open>run_ocr\<close> has no handler
  around \<^verbatim>\<open>Image.open\<close>, so when the decoding of \<open>image_bytes\<close> raises, the exception
  leaves \<open>run_ocr\<close> and no empty string is returned. Only the error that
  \<^verbatim>\<open>ocr_model.run\<close> reports in its result yields the empty string
  (\<open>run_ocr_error_flag\<close>).
\<close>

theorem run_ocr_decode_error_propagates:
  "image_open c image_bytes = Inl e \<Longrightarrow> run_ocr c image_bytes = Inl e"
  by (simp add: run_ocr_def)

theorem run_ocr_decode_error_propagates_witness:
  "image_open (demo ''{}'') [] = Inl (Raised ''UnidentifiedImageError'')
   \<and> run_ocr (demo ''{}'') [] = Inl (Raised ''UnidentifiedImageError'')"
proof -
  have a: "image_open (demo ''{}'') [] = Inl (Raised ''UnidentifiedImageError'')"
    by (simp add: demo_def)
  from run_ocr_decode_error_propagates [OF a] a show ?thesis by simp
qed

lemma structure_text_parse_failure:
  "groq_create c (prompt text) = Inr content \<Longrightarrow> json_loads c (strip content) = Inl e
     \<Longrightarrow> structure_text c text = Inr (PDict [])"
  by (simp add: structure_text_def)

text \<open>
  C7 (malformed output gives an empty record). The code returns the empty record when
  \<^verbatim>\<open>json.loads\<close> raises (\<open>structure_text_parse_failure\<close>). A response that is JSON
  but not a record of the schema (a list, a string, a number, \<^verbatim>\<open>null\<close>) is not
  replaced: \<open>structure_text\<close> returns whatever \<^verbatim>\<open>json.loads\<close> decoded, and the next
  step, \<^verbatim>\<open>data.get\<close> in \<open>regex_rescue\<close>, raises on it.
\<close>

theorem structure_text_returns_decoded:
  "groq_create c (prompt text) = Inr content \<Longrightarrow> json_loads c (strip content) = Inr data
     \<Longrightarrow> structure_text c text = Inr data"
  by (simp add: structure_text_def)

theorem structure_text_returns_decoded_witness:
  "groq_create (demo ''[]'') (prompt ''Jane Doe'') = Inr ''[]''
   \<and> json_loads (demo ''[]'') (strip ''[]'') = Inr (PList [])
   \<and> structure_text (demo ''[]'') ''Jane Doe'' = Inr (PList [])
   \<and> PList [] \<noteq> PDict []
   \<and> regex_rescue_call (PList []) ''Jane Doe'' = Inl AttributeError"
proof -
  have a: "groq_create (demo ''[]'') (prompt ''Jane Doe'') = Inr ''[]''"
    by (simp add: demo_def)
  have b: "json_loads (demo ''[]'') (strip ''[]'') = Inr (PList [])"
    by (simp add: demo_def demo_loads_def strip_def is_space_def)
  from structure_text_returns_decoded [OF a b] a b show ?thesis
    by (simp add: regex_rescue_call_def)
qed

lemma merge_ocr_all:
  "list_all2 (\<lambda>en t. run_ocr c (snd en) = Inr t) entries texts \<Longrightarrow>
     merge_ocr c acc entries = Inr (acc @ concat (map (\<lambda>t. ''\<newline>'' @ t) texts))"
proof (induction entries arbitrary: acc texts)
  case Nil
  then show ?case by simp
next
  case (Cons en entries)
  then obtain t ts where ts: "texts = t # ts" "run_ocr c (snd en) = Inr t"
      "list_all2 (\<lambda>en t. run_ocr c (snd en) = Inr t) entries ts"
    by (auto simp: list_all2_Cons1)
  obtain m b where en: "en = (m, b)" by (cases en)
  from Cons.IH [OF ts(3)] ts(1,2) en show ?case by simp
qed

text \<open>
  C6 (order preservation), as amended. For entries that arrived in the order A then B
  and whose recognition returns, the merged text is a newline, the text of A, a newline
  and the text of B: each image's text follows a newline, in arrival order, so the
  merged text begins with a newline. \<open>merge_ocr_all\<close> is the same for any number of
  entries.
\<close>

theorem merge_ocr_two:
  assumes "run_ocr c a = Inr ta" and "run_ocr c b = Inr tb"
  shows "merge_ocr c [] [(ma, a), (mb, b)] = Inr (''\<newline>'' @ ta @ ''\<newline>'' @ tb)"
  using assms by simp

theorem merge_ocr_two_witness:
  "run_ocr (demo ''{}'') (as_bytes ''Jane Doe'') = Inr ''Jane Doe''
   \<and> run_ocr (demo ''{}'') (as_bytes ''Acme'') = Inr ''Acme''
   \<and> merge_ocr (demo ''{}'') [] [(msg (photo 1 ''g'' ''Jane Doe''), as_bytes ''Jane Doe''),
                                 (msg (photo 2 ''g'' ''Acme''), as_bytes ''Acme'')]
       = Inr ''\<newline>Jane Doe\<newline>Acme''"
proof -
  have a: "run_ocr (demo ''{}'') (as_bytes ''Jane Doe'') = Inr ''Jane Doe''" by code_simp
  have b: "run_ocr (demo ''{}'') (as_bytes ''Acme'') = Inr ''Acme''" by code_simp
  from merge_ocr_two [OF a b] a b show ?thesis by simp
qed

text \<open>
  C6 as stated fails: with the texts \<^verbatim>\<open>a\<close> and \<^verbatim>\<open>b\<close> the merged text is not the text
  of A, a separator and the text of B, for any separator, because it begins with a
  newline.
\<close>

theorem merge_ocr_leading_separator_counterexample:
  "run_ocr (demo ''{}'') (as_bytes ''a'') = Inr ''a''
   \<and> run_ocr (demo ''{}'') (as_bytes ''b'') = Inr ''b''
   \<and> merge_ocr (demo ''{}'') [] [(msg (photo 1 ''g'' ''a''), as_bytes ''a''),
                                 (msg (photo 2 ''g'' ''b''), as_bytes ''b'')]
       = Inr ''\<newline>a\<newline>b''
   \<and> \<not> (\<exists>sep. ''\<newline>a\<newline>b'' = ''a'' @ sep @ ''b'')"
proof -
  have a: "run_ocr (demo ''{}'') (as_bytes ''a'') = Inr ''a''" by code_simp
  have b: "run_ocr (demo ''{}'') (as_bytes ''b'') = Inr ''b''" by code_simp
  have m: "merge_ocr (demo ''{}'') [] [(msg (photo 1 ''g'' ''a''), as_bytes ''a''),
                                 (msg (photo 2 ''g'' ''b''), as_bytes ''b'')]
       = Inr ''\<newline>a\<newline>b''" using a b by simp
  have "\<not> (\<exists>sep. ''\<newline>a\<newline>b'' = ''a'' @ sep @ ''b'')" by simp
  with a b m show ?thesis by simp
qed

section \<open>Properties of the reply formatter\<close>

lemma and_then_Inr: "and_then (Inr x) f = f x"
  by (simp add: and_then_def)

lemma dict_item_Some: "map_of d k = Some v \<Longrightarrow> dict_item d k = Inr v"
  by (simp add: dict_item_def)

text \<open>
  C4 (reply format), as amended. For a record that has the six fields, \<open>format_reply\<close>
  returns the template of the specification filled with the six values, except for the
  header line, which is the pushpin, a space and \<^verbatim>\<open>**Extracted Profile**\<close> with the
  Markdown markers of bold. A value that is a string stands as it is
  (\<open>fstr c (PStr s) = s\<close>).
\<close>

theorem format_reply_template:
  assumes "map_of d ''name'' = Some n" and "map_of d ''profession'' = Some p"
    and "map_of d ''current_company'' = Some co" and "map_of d ''current_location'' = Some l"
    and "map_of d ''email'' = Some e" and "map_of d ''phone'' = Some ph"
  shows "format_reply c d =
           Inr (pushpin @ '' **Extracted Profile**''
                @ drop (length (pushpin @ '' Extracted Profile''))
                    (spec_template (fstr c n) (fstr c p) (fstr c co) (fstr c l) (fstr c e)
                       (fstr c ph)))"
  using assms
  by (simp add: format_reply_def dict_item_Some and_then_Inr spec_template_def pushpin_def)

theorem format_reply_template_witness:
  "format_reply (demo ''{}'') jane =
     Inr (pushpin @ '' **Extracted Profile**\<newline>\<newline>''
          @ bust @ '' Name: Jane Doe\<newline>''
          @ briefcase @ '' Profession: Software Engineer\<newline>''
          @ office @ '' Company: Acme\<newline>''
          @ round_pin @ '' Location: San Francisco, CA\<newline>''
          @ e_mail @ '' Email: N/A\<newline>''
          @ receiver @ '' Phone: N/A'')"
proof -
  have "format_reply (demo ''{}'') jane =
           Inr (pushpin @ '' **Extracted Profile**''
                @ drop (length (pushpin @ '' Extracted Profile''))
                    (spec_template (fstr (demo ''{}'') (PStr ''Jane Doe''))
                       (fstr (demo ''{}'') (PStr ''Software Engineer''))
                       (fstr (demo ''{}'') (PStr ''Acme''))
                       (fstr (demo ''{}'') (PStr ''San Francisco, CA''))
                       (fstr (demo ''{}'') (PStr ''N/A'')) (fstr (demo ''{}'') (PStr ''N/A''))))"
    by (rule format_reply_template) (simp_all add: jane_def)
  then show ?thesis
    by (simp add: fstr_def spec_template_def pushpin_def)
qed

text \<open>
  C4 as stated fails: for the record of the first scenario the text of \<open>format_reply\<close>
  is not the template of the specification, whose header line has no asterisks.
\<close>

theorem format_reply_header_counterexample:
  "format_reply (demo ''{}'') jane \<noteq>
     Inr (spec_template ''Jane Doe'' ''Software Engineer'' ''Acme'' ''San Francisco, CA''
            ''N/A'' ''N/A'')"
  by (simp add: format_reply_def jane_def dict_item_def and_then_def spec_template_def
      pushpin_def fstr_def)

lemma format_reply_after_rescue:
  "\<exists>t. format_reply c (regex_rescue d text) = Inr t"
proof -
  have "\<exists>v. dict_item (regex_rescue d text) k = Inr v" if "k \<in> set FIELDS" for k
    using that by (auto simp: dict_item_def map_of_regex_rescue Let_def dict_get_def
        sentinel_def split: option.splits)
  then obtain n p co l e ph where
    "dict_item (regex_rescue d text) ''name'' = Inr n"
    "dict_item (regex_rescue d text) ''profession'' = Inr p"
    "dict_item (regex_rescue d text) ''current_company'' = Inr co"
    "dict_item (regex_rescue d text) ''current_location'' = Inr l"
    "dict_item (regex_rescue d text) ''email'' = Inr e"
    "dict_item (regex_rescue d text) ''phone'' = Inr ph"
    unfolding FIELDS_def by (metis list.set_intros)
  then show ?thesis by (simp add: format_reply_def and_then_Inr)
qed

section \<open>Properties of the submission collator\<close>

lemma pending_arrive:
  "pending (handle_photo_arrive u b) g =
     (if group_id u = g then pending b g @ [(msg u, photo_bytes u)] else pending b g)"
  by (auto simp: handle_photo_arrive_def dd_getitem_def pending_def split: option.splits)

lemma arrive_other: "group_id u \<noteq> g \<Longrightarrow> handle_photo_arrive u b g = b g"
  by (auto simp: handle_photo_arrive_def dd_getitem_def split: option.splits)

lemma wake_other: "group_id u \<noteq> g \<Longrightarrow> fst (handle_photo_wake c u b) g = b g"
  by (auto simp: handle_photo_wake_def dd_getitem_def split: option.splits)

lemma wake_same_buffer:
  "fst (handle_photo_wake c u b) (group_id u) =
     (if pending b (group_id u) = [] then Some [] else None)"
  by (auto simp: handle_photo_wake_def dd_getitem_def pending_def split: option.splits)

lemma wake_same_outcome:
  "snd (handle_photo_wake c u b) =
     (if pending b (group_id u) = [] then Skipped else finalize c (pending b (group_id u)))"
  by (auto simp: handle_photo_wake_def dd_getitem_def pending_def split: option.splits)

lemma pending_wake:
  "pending (fst (handle_photo_wake c u b)) g = (if group_id u = g then [] else pending b g)"
  using wake_other [of u g c b] wake_same_buffer [of c u b]
  by (auto simp: pending_def)


lemma run_Nil: "run c [] st = st"
  by (simp add: run_def)

lemma run_Cons: "run c (ev # evs) st = run c evs (exec c ev st)"
  by (simp add: run_def)

lemma run_append: "run c (xs @ ys) st = run c ys (run c xs st)"
  by (simp add: run_def)

lemma run_Arrive:
  "run c (Arrive u # evs) (b, outs) = run c evs (handle_photo_arrive u b, outs)"
  by (simp add: run_def)

lemma run_Wake:
  "run c (Wake u # evs) (b, outs) =
     run c evs (fst (handle_photo_wake c u b), outs @ [(u, snd (handle_photo_wake c u b))])"
  by (simp add: run_def split_beta)

lemma arrivals_of_Cons:
  "arrivals_of g (ev # evs) =
     (case ev of Arrive u \<Rightarrow> if group_id u = g then [(msg u, photo_bytes u)] else []
               | Wake u \<Rightarrow> []) @ arrivals_of g evs"
  by (simp add: arrivals_of_def)

lemma wakes_of_Cons:
  "wakes_of g (ev # evs) =
     (case ev of Arrive u \<Rightarrow> [] | Wake u \<Rightarrow> if group_id u = g then [u] else [])
     @ wakes_of g evs"
  by (simp add: wakes_of_def)

lemma arrivals_of_Nil: "arrivals_of g [] = []"
  by (simp add: arrivals_of_def)

lemma wakes_of_Nil: "wakes_of g [] = []"
  by (simp add: wakes_of_def)

lemma log_of_append: "log_of g (xs @ ys) = log_of g xs @ log_of g ys"
  by (simp add: log_of_def)

lemma log_of_single: "log_of g [(u, out)] = (if group_id u = g then [(u, out)] else [])"
  by (simp add: log_of_def)

lemma run_arrivals:
  "wakes_of g evs = [] \<Longrightarrow>
     pending (fst (run c evs (b, outs))) g = pending b g @ arrivals_of g evs
     \<and> log_of g (snd (run c evs (b, outs))) = log_of g outs"
proof (induction evs arbitrary: b outs)
  case Nil
  show ?case by (simp add: run_Nil arrivals_of_Nil)
next
  case (Cons ev evs)
  from Cons.prems have w: "wakes_of g evs = []" by (simp add: wakes_of_Cons)
  show ?case
  proof (cases ev)
    case (Arrive u)
    with Cons.IH [OF w, where b = "handle_photo_arrive u b" and outs = outs] show ?thesis
      by (simp add: run_Arrive arrivals_of_Cons pending_arrive)
  next
    case (Wake u)
    with Cons.prems have ne: "group_id u \<noteq> g"
      by (auto simp: wakes_of_Cons split: if_splits)
    with Wake Cons.IH [OF w, where b = "fst (handle_photo_wake c u b)"
        and outs = "outs @ [(u, snd (handle_photo_wake c u b))]"]
    show ?thesis
      by (simp add: run_Wake arrivals_of_Cons pending_wake log_of_append log_of_single)
  qed
qed


lemma run_wakes_buffer:
  "arrivals_of g evs = [] \<Longrightarrow>
     fst (run c evs (b, outs)) g =
       (case wakes_of g evs of
          [] \<Rightarrow> b g
        | u # us \<Rightarrow> if pending b g \<noteq> [] \<and> us = [] then None else Some [])"
proof (induction evs arbitrary: b outs)
  case Nil
  show ?case by (simp add: run_Nil wakes_of_Nil)
next
  case (Cons ev evs)
  from Cons.prems have a: "arrivals_of g evs = []" by (simp add: arrivals_of_Cons)
  show ?case
  proof (cases ev)
    case (Arrive u)
    with Cons.prems have ne: "group_id u \<noteq> g"
      by (auto simp: arrivals_of_Cons split: if_splits)
    with Arrive Cons.IH [OF a, where b = "handle_photo_arrive u b" and outs = outs] show ?thesis
      by (simp add: run_Arrive wakes_of_Cons pending_arrive arrive_other split: list.splits)
  next
    case (Wake u)
    note ih = Cons.IH [OF a, where b = "fst (handle_photo_wake c u b)"
        and outs = "outs @ [(u, snd (handle_photo_wake c u b))]"]
    show ?thesis
    proof (cases "group_id u = g")
      case True
      with Wake ih wake_same_buffer [of c u b] show ?thesis
        by (simp add: run_Wake wakes_of_Cons pending_wake split: list.splits)
    next
      case False
      with Wake ih show ?thesis
        by (simp add: run_Wake wakes_of_Cons pending_wake wake_other split: list.splits)
    qed
  qed
qed




lemma pending_empty: "pending Map.empty g = []"
  by (simp add: pending_def)

text \<open>
  Every arrival has to precede the first wake-up for this: a third photo that arrives
  after the first wake-up, though before the wake-up of the second photo, starts a new
  list, and the second wake-up finalizes it.
\<close>

lemma late_arrival_finalizes_again:
  "map snd (snd (run (demo ''{}'')
      [Arrive (photo 1 ''g'' ''a''), Arrive (photo 2 ''g'' ''b''), Wake (photo 1 ''g'' ''a''),
       Arrive (photo 3 ''g'' ''c''), Wake (photo 2 ''g'' ''b''), Wake (photo 3 ''g'' ''c'')]
      (Map.empty, []))) =
   [finalize (demo ''{}'') [(msg (photo 1 ''g'' ''a''), as_bytes ''a''),
                            (msg (photo 2 ''g'' ''b''), as_bytes ''b'')],
    finalize (demo ''{}'') [(msg (photo 3 ''g'' ''c''), as_bytes ''c'')],
    Skipped]"
  by (simp add: run_Arrive run_Wake run_Nil wake_same_outcome pending_wake pending_arrive
      group_id_def photo_def pending_empty)

text \<open>
  C9 (a consumed key leaves the map). The code does not remove it for good: when two
  photos or more of one group arrive before the group's first wake-up, that wake-up pops
  the key, and the guard of the next wake-up reads \<^verbatim>\<open>album_buffer[group_id]\<close> on the
  \<^verbatim>\<open>defaultdict\<close>, which stores the key again with the empty list. After all the
  wake-ups of the group the key is in the map. For a single photo the key is gone
  (\<open>single_photo_key_removed\<close>).
\<close>

theorem consumed_key_lingers:
  assumes "pending b g = []"
    and "wakes_of g pre = []"
    and "arrivals_of g post = []"
    and "2 \<le> length (arrivals_of g pre)"
    and "length (wakes_of g post) = length (arrivals_of g pre)"
  shows "fst (run c (pre @ post) (b, [])) g = Some []"
proof -
  obtain b1 outs1 where r1: "run c pre (b, []) = (b1, outs1)" by (cases "run c pre (b, [])")
  from assms(4,5) obtain u u' us where w: "wakes_of g post = u # u' # us"
    by (cases "wakes_of g post"; cases "tl (wakes_of g post)") auto
  from run_wakes_buffer [OF assms(3), of c b1 outs1] r1 w show ?thesis
    by (simp add: run_append)
qed

theorem consumed_key_lingers_witness:
  "fst (run (demo ''{}'')
        [Arrive (photo 1 ''g'' ''Jane Doe''), Arrive (photo 2 ''g'' ''Acme''),
         Wake (photo 1 ''g'' ''Jane Doe''), Wake (photo 2 ''g'' ''Acme'')] (Map.empty, []))
     (MediaGroup ''g'') = Some []"
proof -
  let ?g = "MediaGroup ''g''"
  let ?pre = "[Arrive (photo 1 ''g'' ''Jane Doe''), Arrive (photo 2 ''g'' ''Acme'')]"
  let ?post = "[Wake (photo 1 ''g'' ''Jane Doe''), Wake (photo 2 ''g'' ''Acme'')]"
  have g: "group_id (photo 1 ''g'' ''Jane Doe'') = ?g" "group_id (photo 2 ''g'' ''Acme'') = ?g"
    by (simp_all add: group_id_def photo_def)
  have h: "pending Map.empty ?g = []" "wakes_of ?g ?pre = []" "arrivals_of ?g ?post = []"
    by (simp_all add: pending_def wakes_of_def arrivals_of_def)
  have n: "2 \<le> length (arrivals_of ?g ?pre)"
    "length (wakes_of ?g ?post) = length (arrivals_of ?g ?pre)"
    by (simp_all add: arrivals_of_def wakes_of_def g)
  from consumed_key_lingers [of Map.empty ?g ?pre ?post "demo ''{}''", OF h n]
  show ?thesis by simp
qed

lemma single_photo_key_removed:
  assumes "pending b g = []"
    and "wakes_of g pre = []"
    and "arrivals_of g post = []"
    and "length (arrivals_of g pre) = 1"
    and "length (wakes_of g post) = 1"
  shows "fst (run c (pre @ post) (b, [])) g = None"
proof -
  obtain b1 outs1 where r1: "run c pre (b, []) = (b1, outs1)" by (cases "run c pre (b, [])")
  from run_arrivals [OF assms(2), of c b "[]"] r1 assms(1,4)
  have p1: "pending b1 g \<noteq> []" by auto
  from assms(5) obtain u where w: "wakes_of g post = [u]"
    by (cases "wakes_of g post") auto
  from run_wakes_buffer [OF assms(3), of c b1 outs1] r1 w p1 show ?thesis
    by (simp add: run_append)
qed

end
